theory Spec2Isabelle
  imports Complex_Main
begin

section \<open>The GR4J rainfall-runoff model of src/src/gr4j_model.py\<close>

text \<open>
  The model follows \<^verbatim>\<open>gr4j_model.py\<close> statement by statement. Python and numpy
  \<^verbatim>\<open>float64\<close> values are idealised as \<^typ>\<open>real\<close>: rounding, overflow and underflow
  are not part of the model. The special values that the source can reach in exact arithmetic
  (a fractional power of a negative base, a division of a numpy scalar by zero) are written
  out as \<open>NaN\<close>, \<open>PosInf\<close> and \<open>NegInf\<close>. Every exception the source can raise is a value
  of type \<open>error\<close>.
\<close>

datatype error = IndexError | ValueError | ZeroDivisionError

datatype npfloat = Finite real | PosInf | NegInf | NaN

subsection \<open>The model object\<close>

record GR4J =
  X1 :: real
  X2 :: real
  X3 :: real
  X4 :: real

text \<open>\<^verbatim>\<open>GR4J.__init__\<close> stores its four arguments and checks nothing.\<close>

definition GR4J_init :: "real \<Rightarrow> real \<Rightarrow> real \<Rightarrow> real \<Rightarrow> GR4J" where
  "GR4J_init x1 x2 x3 x4 = \<lparr>X1 = x1, X2 = x2, X3 = x3, X4 = x4\<rparr>"

text \<open>The keyword defaults of the constructor: \<^verbatim>\<open>X1=350, X2=0, X3=90, X4=1.7\<close>.\<close>

definition GR4J_default :: GR4J where
  "GR4J_default = GR4J_init 350 0 90 (17 / 10)"

subsection \<open>numpy helpers\<close>

text \<open>\<^verbatim>\<open>np.zeros(n)\<close> raises \<^verbatim>\<open>ValueError\<close> on a negative dimension.\<close>

definition np_zeros :: "int \<Rightarrow> error + real list" where
  "np_zeros n = (if n < 0 then Inl ValueError else Inr (replicate (nat n) 0))"

text \<open>\<^verbatim>\<open>np.clip(x, lo, hi)\<close> is \<^verbatim>\<open>minimum(maximum(x, lo), hi)\<close>, also when \<open>lo > hi\<close>.\<close>

definition np_clip :: "real \<Rightarrow> real \<Rightarrow> real \<Rightarrow> real" where
  "np_clip x lo hi = min (max x lo) hi"

text \<open>\<^verbatim>\<open>np.roll(a, 1)\<close>: the last entry moves to the front.\<close>

definition np_roll :: "real list \<Rightarrow> real list" where
  "np_roll xs = (if xs = [] then [] else last xs # butlast xs)"

text \<open>\<^verbatim>\<open>a[0] = v\<close> raises \<^verbatim>\<open>IndexError\<close> on an array of size 0.\<close>

definition set_item0 :: "real list \<Rightarrow> real \<Rightarrow> error + real list" where
  "set_item0 xs v = (if xs = [] then Inl IndexError else Inr (xs[0 := v]))"

text \<open>\<^verbatim>\<open>np.sum(a * b)\<close> for two arrays of the same length.\<close>

definition np_dot :: "real list \<Rightarrow> real list \<Rightarrow> real" where
  "np_dot xs ys = sum_list (map2 (*) xs ys)"

subsection \<open>Unit hydrographs\<close>

text \<open>The body of the first loop of \<^verbatim>\<open>_compute_unit_hydrographs\<close>, at index \<open>t\<close>.\<close>

definition UH1_body :: "real \<Rightarrow> real list \<Rightarrow> nat \<Rightarrow> real list" where
  "UH1_body x4 UH1 t =
     (if real t < x4 then UH1[t := ((real t + 1) / x4) powr 2.5] else UH1)"

text \<open>The body of the second loop, at index \<open>t\<close>.\<close>

definition UH2_body :: "real \<Rightarrow> real list \<Rightarrow> nat \<Rightarrow> real list" where
  "UH2_body x4 UH2 t =
     (if real t < x4 then UH2[t := 0.5 * ((real t + 1) / x4) powr 2.5]
      else if real t < 2 * x4 then
        (let ratio = 2 - (real t + 1) / x4 in
         if ratio > 0 then UH2[t := 1 - 0.5 * ratio powr 2.5] else UH2[t := 1])
      else UH2)"

text \<open>
  The step commented \<^verbatim>\<open># Normalize\<close>: \<^verbatim>\<open>if n > 1: UH[1:] = UH[1:] - UH[:-1]\<close>.
  The right-hand side is computed from the old array before the assignment.
\<close>

definition normalize :: "real list \<Rightarrow> real list" where
  "normalize UH =
     (if length UH > 1 then hd UH # map2 (-) (tl UH) (butlast UH) else UH)"

definition compute_unit_hydrographs :: "GR4J \<Rightarrow> error + (real list \<times> real list)" where
  "compute_unit_hydrographs self =
     (let nUH1 = \<lceil>X4 self\<rceil> in
      case np_zeros nUH1 of
        Inl e \<Rightarrow> Inl e
      | Inr Z1 \<Rightarrow>
         (let UH1 = normalize (foldl (UH1_body (X4 self)) Z1 [0..<nat nUH1]);
              nUH2 = \<lceil>2 * X4 self\<rceil>
          in case np_zeros nUH2 of
               Inl e \<Rightarrow> Inl e
             | Inr Z2 \<Rightarrow>
                Inr (UH1, normalize (foldl (UH2_body (X4 self)) Z2 [0..<nat nUH2]))))"

text \<open>
  The value that the second loop writes at index \<open>t\<close> when \<open>t < 2 * X4\<close>: the three
  assignments of its body as one expression (used to state the closed form of \<open>UH2\<close>).
\<close>

definition SH2 :: "real \<Rightarrow> nat \<Rightarrow> real" where
  "SH2 x4 t =
     (if real t < x4 then 0.5 * ((real t + 1) / x4) powr 2.5
      else if 2 - (real t + 1) / x4 > 0 then 1 - 0.5 * (2 - (real t + 1) / x4) powr 2.5
      else 1)"

subsection \<open>One simulated day\<close>

text \<open>The local variables of \<^verbatim>\<open>run\<close> that live across iterations of its loop.\<close>

record state =
  S :: real
  R :: real
  UH1_stores :: "real list"
  UH2_stores :: "real list"
  Q :: "real list"

text \<open>
  Lines 51 to 70: the pair \<open>(Ps, Es)\<close>, from the store level, the capacity \<open>X1\<close>, and the
  day's precipitation \<open>p\<close> and evapotranspiration \<open>e\<close>.
\<close>

definition net_fluxes :: "real \<Rightarrow> real \<Rightarrow> real \<Rightarrow> real \<Rightarrow> real \<times> real" where
  "net_fluxes x1 s p e =
     (if p \<ge> e then
        (let Pn = p - e;
             capacity_ratio = s / x1;
             Ps = x1 * (1 - capacity_ratio\<^sup>2) * tanh (Pn / x1);
             Ps' = Ps / (1 + capacity_ratio * tanh (Pn / x1))
         in (Ps', 0))
      else
        (let En = e - p;
             capacity_ratio = s / x1;
             Es = s * (2 - capacity_ratio) * tanh (En / x1);
             Es' = Es / (1 + (1 - capacity_ratio) * tanh (En / x1))
         in (0, Es')))"

text \<open>Lines 77 and 78, and again 104 and 105: the outflow of a store at level \<open>s\<close> of capacity \<open>c\<close>.\<close>

definition outflow :: "real \<Rightarrow> real \<Rightarrow> real" where
  "outflow c s = s * (1 - (1 + ((s / c) / 2.25) ^ 4) powr (- 0.25))"

text \<open>
  Line 98, \<^verbatim>\<open>F = self.X2 * (R / self.X3)**3.5\<close>: numpy gives \<^verbatim>\<open>nan\<close> for a
  fractional power of a negative base.
\<close>

definition exchange :: "real \<Rightarrow> real \<Rightarrow> real \<Rightarrow> npfloat" where
  "exchange x2 x3 r = (if r / x3 < 0 then NaN else Finite (x2 * (r / x3) powr 3.5))"

text \<open>
  Line 101, \<^verbatim>\<open>R = max(0, R + Q9 + F)\<close>: Python's \<^verbatim>\<open>max\<close> keeps its first argument unless
  the second compares greater, and no comparison with \<^verbatim>\<open>nan\<close> is true.
\<close>

definition update_routing :: "real \<Rightarrow> real \<Rightarrow> npfloat \<Rightarrow> real" where
  "update_routing r q9 F = (case F of Finite f \<Rightarrow> max 0 (r + q9 + f) | _ \<Rightarrow> 0)"

text \<open>
  The body of the loop of \<^verbatim>\<open>run\<close> at day \<open>t\<close>. \<^verbatim>\<open>evap[t]\<close> raises \<^verbatim>\<open>IndexError\<close> past
  the end of \<^verbatim>\<open>evap\<close>. The parameters are taken to be Python numbers, as the defaults of the
  constructor are: the divisions by \<^verbatim>\<open>self.X1\<close> and \<^verbatim>\<open>self.X3\<close> then divide a Python float
  on the first day and raise \<^verbatim>\<open>ZeroDivisionError\<close> on zero, and no later day is reached.
  With \<^verbatim>\<open>numpy.float64\<close> parameters (as \<^verbatim>\<open>calibrate_model.py\<close> and
  \<^verbatim>\<open>validate_model.py\<close> pass them) a zero \<open>X1\<close> or \<open>X3\<close> gives \<^verbatim>\<open>nan\<close> instead of an
  exception; the two branches \<open>X1 self = 0\<close> and \<open>X3 self = 0\<close> do not describe that case, and
  no theorem below concludes that a run raises \<^verbatim>\<open>ZeroDivisionError\<close>.
\<close>

definition step ::
  "GR4J \<Rightarrow> real list \<Rightarrow> real list \<Rightarrow> real list \<Rightarrow> real list \<Rightarrow> state \<Rightarrow> nat \<Rightarrow> error + state" where
  "step self UH1 UH2 precip evap st t =
     (if \<not> t < length evap then Inl IndexError
      else if X1 self = 0 then Inl ZeroDivisionError
      else
        (let (Ps, Es) = net_fluxes (X1 self) (S st) (precip ! t) (evap ! t);
             S1 = np_clip (S st - Es + Ps) 0 (X1 self);
             perc = outflow (X1 self) S1;
             S2 = S1 - perc;
             Pr = perc + (precip ! t - Ps);
             Pr9 = 0.9 * Pr;
             Pr1 = 0.1 * Pr
         in case set_item0 (np_roll (UH1_stores st)) Pr9 of
              Inl e \<Rightarrow> Inl e
            | Inr U1 \<Rightarrow>
               (case set_item0 (np_roll (UH2_stores st)) Pr1 of
                  Inl e \<Rightarrow> Inl e
                | Inr U2 \<Rightarrow>
                   (if X3 self = 0 then Inl ZeroDivisionError
                    else
                      (let Q9 = np_dot U1 UH1;
                           Q1 = np_dot U2 UH2;
                           F = exchange (X2 self) (X3 self) (R st);
                           R1 = update_routing (R st) Q9 F;
                           Qr = outflow (X3 self) R1;
                           R2 = R1 - Qr;
                           Qd = max 0 (Qr + Q1)
                       in Inr (st\<lparr>S := S2, R := R2, UH1_stores := U1, UH2_stores := U2,
                                  Q := (Q st)[t := Qd]\<rparr>))))))"

subsection \<open>The simulation\<close>

text \<open>Lines 33 to 47: the state before the first day, for \<open>n\<close> days.\<close>

definition initial_state :: "GR4J \<Rightarrow> real list \<Rightarrow> real list \<Rightarrow> nat \<Rightarrow> state" where
  "initial_state self UH1 UH2 n =
     \<lparr>S = X1 self * 0.5, R = X3 self * 0.5,
      UH1_stores = replicate (length UH1) 0, UH2_stores = replicate (length UH2) 0,
      Q = replicate n 0\<rparr>"

text \<open>
  \<^verbatim>\<open>for t in range(k)\<close> over the loop body; an exception ends the loop. \<^verbatim>\<open>run\<close> uses
  \<open>k = len(precip)\<close>; a smaller \<open>k\<close> gives the state at the end of day \<open>k\<close> of the same run.
\<close>

definition simulate ::
  "GR4J \<Rightarrow> real list \<Rightarrow> real list \<Rightarrow> real list \<Rightarrow> real list \<Rightarrow> state \<Rightarrow> nat \<Rightarrow> error + state" where
  "simulate self UH1 UH2 precip evap st0 k =
     foldl (\<lambda>acc t. case acc of Inl e \<Rightarrow> Inl e
                               | Inr st \<Rightarrow> step self UH1 UH2 precip evap st t)
           (Inr st0) [0..<k]"

text \<open>
  \<^verbatim>\<open>GR4J.run\<close>. The second component is the object after the call: the method
  assigns to no attribute of \<^verbatim>\<open>self\<close>.
\<close>

definition run :: "GR4J \<Rightarrow> real list \<Rightarrow> real list \<Rightarrow> (error + real list) \<times> GR4J" where
  "run self precip evap =
     (let n = length precip in
      case compute_unit_hydrographs self of
        Inl e \<Rightarrow> (Inl e, self)
      | Inr (UH1, UH2) \<Rightarrow>
         (case simulate self UH1 UH2 precip evap (initial_state self UH1 UH2 n) n of
            Inl e \<Rightarrow> (Inl e, self)
          | Inr st \<Rightarrow> (Inr (Q st), self)))"

text \<open>
  The state of \<^verbatim>\<open>run\<close> at the end of day \<open>k\<close> (before the first day for \<open>k = 0\<close>):
  the same kernels, the same initial state and the same loop, stopped after \<open>k\<close> iterations.
\<close>

definition state_after :: "GR4J \<Rightarrow> real list \<Rightarrow> real list \<Rightarrow> nat \<Rightarrow> error + state" where
  "state_after self precip evap k =
     (case compute_unit_hydrographs self of
        Inl e \<Rightarrow> Inl e
      | Inr (UH1, UH2) \<Rightarrow>
         simulate self UH1 UH2 precip evap (initial_state self UH1 UH2 (length precip)) k)"

subsection \<open>Nash-Sutcliffe efficiency\<close>

text \<open>\<^verbatim>\<open>np.mean\<close> of an empty array is \<^verbatim>\<open>nan\<close> (with a warning, no exception).\<close>

definition np_mean :: "real list \<Rightarrow> npfloat" where
  "np_mean xs = (if xs = [] then NaN else Finite (sum_list xs / real (length xs)))"

text \<open>
  Elementwise subtraction of two one-dimensional arrays: equal lengths, or one of them of
  length 1 (broadcast); any other pair of shapes raises \<^verbatim>\<open>ValueError\<close>.
\<close>

definition np_subtract :: "real list \<Rightarrow> real list \<Rightarrow> error + real list" where
  "np_subtract xs ys =
     (if length xs = length ys then Inr (map2 (-) xs ys)
      else if length ys = 1 then Inr (map (\<lambda>x. x - hd ys) xs)
      else if length xs = 1 then Inr (map (\<lambda>y. hd xs - y) ys)
      else Inl ValueError)"

text \<open>Division of numpy scalars: a zero divisor gives \<^verbatim>\<open>inf\<close>, \<^verbatim>\<open>-inf\<close> or \<^verbatim>\<open>nan\<close>.\<close>

definition np_divide :: "real \<Rightarrow> real \<Rightarrow> npfloat" where
  "np_divide a b =
     (if b \<noteq> 0 then Finite (a / b)
      else if a > 0 then PosInf else if a < 0 then NegInf else NaN)"

text \<open>\<^verbatim>\<open>c - x\<close> for a finite \<open>c\<close>.\<close>

fun np_rsub :: "real \<Rightarrow> npfloat \<Rightarrow> npfloat" where
  "np_rsub c (Finite x) = Finite (c - x)"
| "np_rsub c PosInf = NegInf"
| "np_rsub c NegInf = PosInf"
| "np_rsub c NaN = NaN"

text \<open>
  \<^verbatim>\<open>calculate_nse\<close>. When \<^verbatim>\<open>observed\<close> is empty its mean is \<^verbatim>\<open>nan\<close>, the difference
  \<^verbatim>\<open>observed - obs_mean\<close> is the empty array and its sum is 0.
\<close>

definition calculate_nse :: "real list \<Rightarrow> real list \<Rightarrow> error + npfloat" where
  "calculate_nse observed simulated =
     (let obs_mean = np_mean observed in
      case np_subtract observed simulated of
        Inl e \<Rightarrow> Inl e
      | Inr d \<Rightarrow>
         (let numerator = sum_list (map (\<lambda>x. x\<^sup>2) d);
              denominator = (case obs_mean of
                               Finite mu \<Rightarrow> sum_list (map (\<lambda>x. (x - mu)\<^sup>2) observed)
                             | _ \<Rightarrow> 0)
          in Inr (np_rsub 1 (np_divide numerator denominator))))"

section \<open>Properties of the unit hydrographs\<close>

lemma map2_diff_sum:
  "xs \<noteq> [] \<Longrightarrow> sum_list (map2 (-) (tl xs) (butlast xs)) = last xs - hd (xs::real list)"
proof (induction xs rule: induct_list012)
  case 1 then show ?case by simp
next
  case (2 x) then show ?case by simp
next
  case (3 x y zs)
  then show ?case by simp
qed

lemma sum_list_normalize: "xs \<noteq> [] \<Longrightarrow> sum_list (normalize xs) = last xs"
proof (cases "length xs > 1")
  case True
  assume ne: "xs \<noteq> []"
  have "sum_list (normalize xs) = hd xs + sum_list (map2 (-) (tl xs) (butlast xs))"
    using True by (simp add: normalize_def)
  also have "\<dots> = last xs" using map2_diff_sum [OF ne] by simp
  finally show ?thesis .
next
  case False
  assume "xs \<noteq> []"
  with False obtain x where "xs = [x]" by (cases xs) auto
  then show ?thesis by (simp add: normalize_def)
qed

lemma length_normalize [simp]: "length (normalize xs) = length xs"
  by (cases xs) (auto simp: normalize_def)

lemma foldl_UH1_body:
  "k \<le> length xs \<Longrightarrow> real k - 1 < x4 \<Longrightarrow>
   foldl (UH1_body x4) xs [0..<k] = map (\<lambda>t. ((real t + 1) / x4) powr 2.5) [0..<k] @ drop k xs"
proof (induction k)
  case 0 then show ?case by simp
next
  case (Suc k)
  then have "real k < x4" "k < length xs" "real k - 1 < x4" by simp_all
  with Suc show ?case
    by (simp add: UH1_body_def list_update_append upd_conv_take_nth_drop)
qed

lemma ceiling_bound: "0 < (x::real) \<Longrightarrow> real (nat \<lceil>x\<rceil>) - 1 < x"
  by linarith

lemma ceiling_pos: "0 < (x::real) \<Longrightarrow> 0 < nat \<lceil>x\<rceil>"
  by linarith

lemma length_foldl_UH1_body [simp]: "length (foldl (UH1_body x4) xs ts) = length xs"
  by (induction ts arbitrary: xs) (simp_all add: UH1_body_def)

lemma length_foldl_UH2_body [simp]: "length (foldl (UH2_body x4) xs ts) = length xs"
  by (induction ts arbitrary: xs) (simp_all add: UH2_body_def Let_def)

lemma compute_unit_hydrographs_ValueError:
  "X4 self \<le> - 1 / 2 \<Longrightarrow> compute_unit_hydrographs self = Inl ValueError"
proof -
  assume a: "X4 self \<le> - 1 / 2"
  then have "\<lceil>2 * X4 self\<rceil> < 0" by linarith
  then show ?thesis
    by (simp add: compute_unit_hydrographs_def np_zeros_def Let_def)
qed

lemma compute_unit_hydrographs_Inr:
  assumes "- 1 / 2 < X4 self"
  shows "compute_unit_hydrographs self =
      Inr (normalize (foldl (UH1_body (X4 self)) (replicate (nat \<lceil>X4 self\<rceil>) 0) [0..<nat \<lceil>X4 self\<rceil>]),
           normalize (foldl (UH2_body (X4 self)) (replicate (nat \<lceil>2 * X4 self\<rceil>) 0) [0..<nat \<lceil>2 * X4 self\<rceil>]))"
proof -
  from assms have "\<not> \<lceil>X4 self\<rceil> < 0" "\<not> \<lceil>2 * X4 self\<rceil> < 0" by linarith+
  then show ?thesis
    by (simp add: compute_unit_hydrographs_def np_zeros_def Let_def)
qed

lemma compute_unit_hydrographs_length:
  assumes "compute_unit_hydrographs self = Inr (UH1, UH2)"
  shows "length UH1 = nat \<lceil>X4 self\<rceil> \<and> length UH2 = nat \<lceil>2 * X4 self\<rceil>"
  using assms
  by (auto simp: compute_unit_hydrographs_def np_zeros_def Let_def split: if_splits)

lemma UH1_closed_form:
  assumes "0 < X4 self" "compute_unit_hydrographs self = Inr (UH1, UH2)"
  shows "UH1 = normalize (map (\<lambda>t. ((real t + 1) / X4 self) powr 2.5) [0..<nat \<lceil>X4 self\<rceil>])"
proof -
  let ?n = "nat \<lceil>X4 self\<rceil>"
  have b: "real ?n - 1 < X4 self" using assms(1) by linarith
  have "foldl (UH1_body (X4 self)) (replicate ?n 0) [0..<?n]
      = map (\<lambda>t. ((real t + 1) / X4 self) powr 2.5) [0..<?n] @ drop ?n (replicate ?n 0)"
    by (rule foldl_UH1_body) (use b in simp_all)
  moreover have "- 1 / 2 < X4 self" using assms(1) by simp
  ultimately show ?thesis
    using assms(2) compute_unit_hydrographs_Inr [of self] by simp
qed

lemma UH1_sum_closed_form:
  assumes "0 < X4 self" "compute_unit_hydrographs self = Inr (UH1, UH2)"
  shows "sum_list UH1 = (real_of_int \<lceil>X4 self\<rceil> / X4 self) powr 2.5"
proof -
  let ?n = "nat \<lceil>X4 self\<rceil>"
  let ?c = "map (\<lambda>t. ((real t + 1) / X4 self) powr 2.5) [0..<?n]"
  have pos: "0 < ?n" using assms(1) by linarith
  then have ne: "?c \<noteq> []" by simp
  have "last ?c = ((real (?n - 1) + 1) / X4 self) powr 2.5"
    using pos by (simp add: last_map last_upt)
  also have "real (?n - 1) + 1 = real_of_int \<lceil>X4 self\<rceil>"
  proof -
    obtain m where m: "?n = Suc m" using pos by (cases ?n) auto
    have "real ?n = real_of_int \<lceil>X4 self\<rceil>" using pos by simp
    then show ?thesis using m by simp
  qed
  finally show ?thesis
    using UH1_closed_form [OF assms] sum_list_normalize [OF ne] by simp
qed

section \<open>Properties of the simulation loop\<close>

lemma simulate_0 [simp]: "simulate self UH1 UH2 precip evap st0 0 = Inr st0"
  by (simp add: simulate_def)

lemma simulate_Suc:
  "simulate self UH1 UH2 precip evap st0 (Suc k) =
     (case simulate self UH1 UH2 precip evap st0 k of
        Inl e \<Rightarrow> Inl e
      | Inr st \<Rightarrow> step self UH1 UH2 precip evap st k)"
  by (simp add: simulate_def)

lemma simulate_error_mono:
  "simulate self UH1 UH2 precip evap st0 k = Inl e \<Longrightarrow> k \<le> k' \<Longrightarrow>
   simulate self UH1 UH2 precip evap st0 k' = Inl e"
proof (induction k' )
  case 0 then show ?case by simp
next
  case (Suc k')
  show ?case
  proof (cases "k = Suc k'")
    case True with Suc.prems show ?thesis by simp
  next
    case False
    with Suc have "simulate self UH1 UH2 precip evap st0 k' = Inl e" by simp
    then show ?thesis by (simp add: simulate_Suc)
  qed
qed

lemma step_IndexError:
  "length evap \<le> t \<Longrightarrow> step self UH1 UH2 precip evap st t = Inl IndexError"
  by (simp add: step_def)

lemma step_Inr:
  assumes "t < length evap" "X1 self \<noteq> 0" "X3 self \<noteq> 0"
    "UH1_stores st \<noteq> []" "UH2_stores st \<noteq> []"
  shows "\<exists>st'. step self UH1 UH2 precip evap st t = Inr st'
      \<and> length (UH1_stores st') = length (UH1_stores st)
      \<and> length (UH2_stores st') = length (UH2_stores st)
      \<and> length (Q st') = length (Q st)"
  using assms
  by (simp add: step_def Let_def set_item0_def np_roll_def split: prod.splits)

lemma step_evap_cong:
  assumes "t < length evap" "t < length evap'" "evap ! t = evap' ! t"
  shows "step self UH1 UH2 precip evap st t = step self UH1 UH2 precip evap' st t"
  using assms by (simp add: step_def)

lemma run_state_after:
  "fst (run self precip evap) = map_sum id Q (state_after self precip evap (length precip))"
  by (simp add: run_def state_after_def Let_def split: sum.splits prod.splits)

lemma run_self [simp]: "snd (run self precip evap) = self"
  by (simp add: run_def Let_def split: sum.splits prod.splits)

lemma simulate_Inr:
  assumes "X1 self \<noteq> 0" "X3 self \<noteq> 0" "UH1 \<noteq> []" "UH2 \<noteq> []" "k \<le> length evap"
  shows "\<exists>st. simulate self UH1 UH2 precip evap (initial_state self UH1 UH2 n) k = Inr st
      \<and> length (UH1_stores st) = length UH1
      \<and> length (UH2_stores st) = length UH2
      \<and> length (Q st) = n"
  using assms(5)
proof (induction k)
  case 0
  then show ?case by (simp add: initial_state_def)
next
  case (Suc k)
  then obtain st where st: "simulate self UH1 UH2 precip evap (initial_state self UH1 UH2 n) k = Inr st"
    "length (UH1_stores st) = length UH1" "length (UH2_stores st) = length UH2" "length (Q st) = n"
    by auto
  have "k < length evap" using Suc.prems by simp
  moreover have "UH1_stores st \<noteq> []" "UH2_stores st \<noteq> []"
    using st assms(3,4) by auto
  ultimately obtain st' where "step self UH1 UH2 precip evap st k = Inr st'"
    "length (UH1_stores st') = length (UH1_stores st)"
    "length (UH2_stores st') = length (UH2_stores st)"
    "length (Q st') = length (Q st)"
    using step_Inr [OF _ assms(1,2), of k evap st UH1 UH2 precip] by blast
  then show ?case using st by (simp add: simulate_Suc)
qed

lemma kernels_nonempty:
  assumes "0 < X4 self" "compute_unit_hydrographs self = Inr (UH1, UH2)"
  shows "UH1 \<noteq> [] \<and> UH2 \<noteq> []"
proof -
  have "0 < nat \<lceil>X4 self\<rceil>" "0 < nat \<lceil>2 * X4 self\<rceil>" using assms(1) by linarith+
  then show ?thesis using compute_unit_hydrographs_length [OF assms(2)] by auto
qed

lemma state_after_Inr:
  assumes "X1 self \<noteq> 0" "X3 self \<noteq> 0" "0 < X4 self" "k \<le> length evap"
  shows "\<exists>st. state_after self precip evap k = Inr st \<and> length (Q st) = length precip"
proof -
  from assms(3) have "- 1 / 2 < X4 self" by simp
  from compute_unit_hydrographs_Inr [OF this]
  obtain UH1 UH2 where uh: "compute_unit_hydrographs self = Inr (UH1, UH2)" by blast
  from kernels_nonempty [OF assms(3) uh] have ne: "UH1 \<noteq> []" "UH2 \<noteq> []" by simp_all
  from simulate_Inr [OF assms(1,2) ne assms(4), of precip "length precip"]
  show ?thesis using uh by (auto simp: state_after_def)
qed

lemma run_Inr:
  assumes "X1 self \<noteq> 0" "X3 self \<noteq> 0" "0 < X4 self" "length precip \<le> length evap"
  shows "\<exists>q. fst (run self precip evap) = Inr q \<and> length q = length precip"
  using state_after_Inr [OF assms, of precip] by (auto simp: run_state_after)

lemma simulate_evap_cong:
  assumes "k \<le> length evap" "k \<le> length evap'" "take k evap = take k evap'"
  shows "simulate self UH1 UH2 precip evap st0 k = simulate self UH1 UH2 precip evap' st0 k"
  using assms
proof (induction k)
  case 0 show ?case by simp
next
  case (Suc k)
  from Suc.prems(3) have tk: "take k evap = take k evap'"
    by (metis take_take min.absorb1 le_Suc_eq le_refl Suc_n_not_le_n nat_le_linear)
  have "evap ! k = take (Suc k) evap ! k" by simp
  also have "\<dots> = evap' ! k" using Suc.prems(3) by simp
  finally have nth: "evap ! k = evap' ! k" .
  have lt: "k < length evap" "k < length evap'" using Suc.prems by simp_all
  have ih: "simulate self UH1 UH2 precip evap st0 k = simulate self UH1 UH2 precip evap' st0 k"
    using Suc.IH lt tk by simp
  show ?case
    by (simp add: simulate_Suc ih step_evap_cong [OF lt nth] split: sum.splits)
qed

section \<open>Store bounds\<close>

lemma outflow_bounds:
  assumes "0 \<le> s"
  shows "0 \<le> outflow c s \<and> outflow c s \<le> s"
proof -
  define b where "b = 1 + ((s / c) / 2.25) ^ 4"
  have b1: "1 \<le> b" unfolding b_def by simp
  have "b powr (- 0.25) \<le> b powr 0"
    by (rule powr_mono) (use b1 in simp_all)
  moreover have "b powr 0 = 1" using b1 by simp
  ultimately have le1: "b powr (- 0.25) \<le> 1" by simp
  have ge0: "0 \<le> b powr (- 0.25)" by simp
  have "0 \<le> s * (1 - b powr (- 0.25))"
    using assms le1 by (intro mult_nonneg_nonneg) simp_all
  moreover have "s * (1 - b powr (- 0.25)) \<le> s * 1"
    using assms ge0 by (intro mult_left_mono) simp_all
  ultimately show ?thesis by (simp add: outflow_def b_def)
qed

lemma np_clip_bounds: "lo \<le> hi \<Longrightarrow> lo \<le> np_clip x lo hi \<and> np_clip x lo hi \<le> hi"
  by (simp add: np_clip_def)

lemma update_routing_nonneg: "0 \<le> update_routing r q9 F"
  by (cases F) (simp_all add: update_routing_def)

lemma step_invariant:
  assumes "step self UH1 UH2 precip evap st t = Inr st'" "0 < X1 self"
  shows "0 \<le> S st' \<and> S st' \<le> X1 self \<and> 0 \<le> R st'
      \<and> (\<exists>qd. 0 \<le> qd \<and> Q st' = (Q st)[t := qd])"
proof -
  obtain Ps Es where pe: "net_fluxes (X1 self) (S st) (precip ! t) (evap ! t) = (Ps, Es)"
    by (cases "net_fluxes (X1 self) (S st) (precip ! t) (evap ! t)")
  let ?S1 = "np_clip (S st - Es + Ps) 0 (X1 self)"
  let ?perc = "outflow (X1 self) ?S1"
  let ?Pr = "?perc + (precip ! t - Ps)"
  obtain U1 U2 where u: "set_item0 (np_roll (UH1_stores st)) (0.9 * ?Pr) = Inr U1"
    "set_item0 (np_roll (UH2_stores st)) (0.1 * ?Pr) = Inr U2"
    using assms(1) pe by (auto simp: step_def Let_def split: if_splits sum.splits)
  let ?R1 = "update_routing (R st) (np_dot U1 UH1) (exchange (X2 self) (X3 self) (R st))"
  let ?Qr = "outflow (X3 self) ?R1"
  have st': "st' = st\<lparr>S := ?S1 - ?perc, R := ?R1 - ?Qr, UH1_stores := U1, UH2_stores := U2,
        Q := (Q st)[t := max 0 (?Qr + np_dot U2 UH2)]\<rparr>"
    using assms(1) pe u by (auto simp: step_def Let_def split: if_splits)
  have s1: "0 \<le> ?S1" "?S1 \<le> X1 self" using np_clip_bounds [of 0 "X1 self"] assms(2) by simp_all
  have p: "0 \<le> ?perc" "?perc \<le> ?S1" using outflow_bounds [OF s1(1)] by simp_all
  have r1: "0 \<le> ?R1" by (rule update_routing_nonneg)
  have q: "?Qr \<le> ?R1" using outflow_bounds [OF r1] by simp
  have "0 \<le> max 0 (?Qr + np_dot U2 UH2) \<and> Q st' = (Q st)[t := max 0 (?Qr + np_dot U2 UH2)]"
    by (simp add: st')
  then have "\<exists>qd. 0 \<le> qd \<and> Q st' = (Q st)[t := qd]" by blast
  moreover have "0 \<le> S st' \<and> S st' \<le> X1 self \<and> 0 \<le> R st'"
    using s1 p q by (simp add: st')
  ultimately show ?thesis by blast
qed

lemma simulate_invariant:
  assumes "0 < X1 self" "0 < X3 self" "UH1 \<noteq> []" "UH2 \<noteq> []" "k \<le> length evap"
  shows "\<exists>st. simulate self UH1 UH2 precip evap (initial_state self UH1 UH2 n) k = Inr st
      \<and> 0 \<le> S st \<and> S st \<le> X1 self \<and> 0 \<le> R st \<and> length (Q st) = n
      \<and> (\<forall>x\<in>set (Q st). 0 \<le> x)"
  using assms(5)
proof (induction k)
  case 0
  then show ?case using assms(1,2) by (simp add: initial_state_def)
next
  case (Suc k)
  then obtain st where st: "simulate self UH1 UH2 precip evap (initial_state self UH1 UH2 n) k = Inr st"
    "length (Q st) = n" "\<forall>x\<in>set (Q st). 0 \<le> x"
    by auto
  have x: "X1 self \<noteq> 0" "X3 self \<noteq> 0" using assms(1,2) by simp_all
  from simulate_Inr [OF x assms(3,4) Suc.prems, of precip n]
  obtain st' where st': "simulate self UH1 UH2 precip evap (initial_state self UH1 UH2 n) (Suc k) = Inr st'"
    "length (Q st') = n"
    by blast
  then have "step self UH1 UH2 precip evap st k = Inr st'"
    using st(1) by (simp add: simulate_Suc)
  from step_invariant [OF this assms(1)]
  obtain qd where inv: "0 \<le> S st'" "S st' \<le> X1 self" "0 \<le> R st'"
    and qd: "0 \<le> qd" "Q st' = (Q st)[k := qd]"
    by blast
  have "set (Q st') \<subseteq> insert qd (set (Q st))"
    unfolding qd(2) by (rule set_update_subset_insert)
  then have "\<forall>x\<in>set (Q st'). 0 \<le> x" using st(3) qd(1) by auto
  then show ?case using st' inv by simp
qed

section \<open>Closed form of the second kernel, signs of the first\<close>

text \<open>
  For \<open>X4 > 1/2\<close> the ordinates of \<open>UH2\<close> sum to 1: the last index of the second loop
  is at least \<open>X4\<close> and its ratio is not positive, so the last cumulative value is 1.
  The ordinates of \<open>UH1\<close> are non-negative for every \<open>X4 > 0\<close>.
\<close>

lemma foldl_UH2_body:
  "k \<le> length xs \<Longrightarrow> real k - 1 < 2 * x4 \<Longrightarrow>
   foldl (UH2_body x4) xs [0..<k] = map (SH2 x4) [0..<k] @ drop k xs"
proof (induction k)
  case 0 then show ?case by simp
next
  case (Suc k)
  then have "real k < 2 * x4" "k < length xs" "real k - 1 < 2 * x4" by simp_all
  with Suc show ?case
    by (simp add: UH2_body_def SH2_def Let_def list_update_append upd_conv_take_nth_drop)
qed

lemma UH2_closed_form:
  assumes "0 < X4 self" "compute_unit_hydrographs self = Inr (UH1, UH2)"
  shows "UH2 = normalize (map (SH2 (X4 self)) [0..<nat \<lceil>2 * X4 self\<rceil>])"
proof -
  let ?n = "nat \<lceil>2 * X4 self\<rceil>"
  have b: "real ?n - 1 < 2 * X4 self" using assms(1) by linarith
  have "foldl (UH2_body (X4 self)) (replicate ?n 0) [0..<?n]
      = map (SH2 (X4 self)) [0..<?n] @ drop ?n (replicate ?n 0)"
    by (rule foldl_UH2_body) (use b in simp_all)
  moreover have "- 1 / 2 < X4 self" using assms(1) by simp
  ultimately show ?thesis
    using assms(2) compute_unit_hydrographs_Inr [of self] by simp
qed

lemma UH2_sum_closed_form:
  assumes "1 / 2 < X4 self" "compute_unit_hydrographs self = Inr (UH1, UH2)"
  shows "sum_list UH2 = 1"
proof -
  let ?n = "nat \<lceil>2 * X4 self\<rceil>"
  let ?c = "map (SH2 (X4 self)) [0..<?n]"
  have x: "0 < X4 self" using assms(1) by simp
  have two: "2 \<le> ?n" using assms(1) by linarith
  then obtain m where m: "?n = Suc m" "1 \<le> m" by (cases ?n) auto
  have ne: "?c \<noteq> []" using m by simp
  have ge: "2 * X4 self \<le> real ?n" by linarith
  have n1: "real m + 1 = real ?n" using m by simp
  have a: "\<not> real m < X4 self"
  proof (cases "1 \<le> X4 self")
    case True
    then show ?thesis using ge n1 by linarith
  next
    case False
    then show ?thesis using m(2) by linarith
  qed
  have r: "\<not> 2 - (real m + 1) / X4 self > 0"
  proof -
    have "2 \<le> real ?n / X4 self" using ge x by (simp add: pos_le_divide_eq)
    then show ?thesis using n1 by simp
  qed
  have "last ?c = SH2 (X4 self) m" using m by (simp add: last_map)
  also have "\<dots> = 1" using a r by (simp add: SH2_def)
  finally show ?thesis
    using UH2_closed_form [OF x assms(2)] sum_list_normalize [OF ne] by simp
qed

lemma UH1_nonneg:
  assumes "0 < X4 self" "compute_unit_hydrographs self = Inr (UH1, UH2)"
  shows "\<forall>u\<in>set UH1. 0 \<le> u"
proof -
  let ?n = "nat \<lceil>X4 self\<rceil>"
  let ?f = "\<lambda>t. ((real t + 1) / X4 self) powr 2.5"
  have mono: "?f i \<le> ?f j" if "i \<le> j" for i j :: nat
    by (rule powr_mono2) (use that assms(1) in \<open>simp_all add: divide_right_mono\<close>)
  have uh: "UH1 = normalize (map ?f [0..<?n])" by (rule UH1_closed_form [OF assms])
  have nth: "0 \<le> UH1 ! i" if "i < ?n" for i
  proof (cases "1 < ?n")
    case False
    with that have "?n = 1" "i = 0" by linarith+
    then show ?thesis by (simp add: uh normalize_def)
  next
    case True
    show ?thesis
    proof (cases i)
      case 0
      with True show ?thesis by (simp add: uh normalize_def hd_map hd_upt upt_conv_Cons)
    next
      case (Suc j)
      with that True have "UH1 ! i = ?f (Suc j) - ?f j"
        by (simp add: uh normalize_def nth_tl nth_butlast)
      with mono [of j "Suc j"] show ?thesis by simp
    qed
  qed
  have "length UH1 = ?n" by (simp add: uh)
  with nth show ?thesis by (auto simp: in_set_conv_nth)
qed

section \<open>The state at the end of a day\<close>

lemma default_params [simp]:
  "X1 GR4J_default = 350" "X2 GR4J_default = 0" "X3 GR4J_default = 90" "X4 GR4J_default = 17 / 10"
  by (simp_all add: GR4J_default_def GR4J_init_def)

lemma GR4J_init_sel [simp]:
  "X1 (GR4J_init a b c d) = a" "X2 (GR4J_init a b c d) = b"
  "X3 (GR4J_init a b c d) = c" "X4 (GR4J_init a b c d) = d"
  by (simp_all add: GR4J_init_def)

lemma state_after_0:
  "state_after self precip evap 0 =
     map_sum id (\<lambda>(UH1, UH2). initial_state self UH1 UH2 (length precip))
       (compute_unit_hydrographs self)"
  by (simp add: state_after_def split: sum.splits)

lemma state_after_0_store:
  "state_after self precip evap 0 = Inr st \<Longrightarrow> S st = X1 self * 0.5 \<and> R st = X3 self * 0.5"
  by (auto simp: state_after_def initial_state_def split: sum.splits)

lemma state_after_Suc:
  "state_after self precip evap (Suc k) =
     (case state_after self precip evap k of
        Inl e \<Rightarrow> Inl e
      | Inr st \<Rightarrow>
         step self (fst (projr (compute_unit_hydrographs self)))
           (snd (projr (compute_unit_hydrographs self))) precip evap st k)"
  by (simp add: state_after_def simulate_Suc split: sum.splits)

lemma state_after_error_mono:
  "state_after self precip evap k = Inl e \<Longrightarrow> k \<le> k' \<Longrightarrow>
   state_after self precip evap k' = Inl e"
proof (cases "compute_unit_hydrographs self")
  case (Inl e')
  assume "state_after self precip evap k = Inl e"
  with Inl show ?thesis by (simp add: state_after_def)
next
  case (Inr uh)
  assume a: "state_after self precip evap k = Inl e" and le: "k \<le> k'"
  obtain UH1 UH2 where uh: "uh = (UH1, UH2)" by (cases uh)
  from a Inr uh
  have "simulate self UH1 UH2 precip evap (initial_state self UH1 UH2 (length precip)) k = Inl e"
    by (simp add: state_after_def)
  from simulate_error_mono [OF this le] show ?thesis
    using Inr uh by (simp add: state_after_def)
qed

lemma set_item0_Inr_nth: "set_item0 xs v = Inr ys \<Longrightarrow> ys ! 0 = v"
  by (cases xs) (auto simp: set_item0_def split: if_splits)

lemma step_routing_input:
  assumes "step self UH1 UH2 precip evap st t = Inr st'"
    and "net_fluxes (X1 self) (S st) (precip ! t) (evap ! t) = (Ps, Es)"
  shows "UH1_stores st' ! 0
           = 0.9 * (outflow (X1 self) (np_clip (S st - Es + Ps) 0 (X1 self)) + (precip ! t - Ps))
       \<and> UH2_stores st' ! 0
           = 0.1 * (outflow (X1 self) (np_clip (S st - Es + Ps) 0 (X1 self)) + (precip ! t - Ps))"
proof -
  let ?Pr = "outflow (X1 self) (np_clip (S st - Es + Ps) 0 (X1 self)) + (precip ! t - Ps)"
  obtain U1 U2 where u: "set_item0 (np_roll (UH1_stores st)) (0.9 * ?Pr) = Inr U1"
    "set_item0 (np_roll (UH2_stores st)) (0.1 * ?Pr) = Inr U2"
    using assms by (auto simp: step_def Let_def split: if_splits sum.splits)
  have "UH1_stores st' = U1 \<and> UH2_stores st' = U2"
    using assms u by (auto simp: step_def Let_def split: if_splits)
  then show ?thesis
    using set_item0_Inr_nth [OF u(1)] set_item0_Inr_nth [OF u(2)] by simp
qed

lemma net_fluxes_evaporation_branch:
  "p < e \<Longrightarrow> fst (net_fluxes x1 s p e) = 0"
  by (simp add: net_fluxes_def Let_def)

lemma first_step_IndexError:
  assumes "compute_unit_hydrographs self = Inr (UH1, UH2)"
    and "X1 self \<noteq> 0" and "X4 self \<le> 0"
  shows "step self UH1 UH2 precip evap (initial_state self UH1 UH2 n) 0 = Inl IndexError"
proof (cases "evap = []")
  case True
  then show ?thesis by (simp add: step_def)
next
  case False
  have "nat \<lceil>X4 self\<rceil> = 0" using assms(3) by linarith
  then have "UH1 = []" using compute_unit_hydrographs_length [OF assms(1)] by simp
  then show ?thesis
    using False assms(2)
    by (simp add: step_def initial_state_def Let_def set_item0_def np_roll_def split: prod.splits)
qed

lemma compute_unit_hydrographs_empty:
  assumes "- 1 / 2 < X4 self" "X4 self \<le> 0"
  shows "compute_unit_hydrographs self = Inr ([], [])"
proof -
  have "nat \<lceil>X4 self\<rceil> = 0" "nat \<lceil>2 * X4 self\<rceil> = 0" using assms(2) by linarith+
  then show ?thesis
    using compute_unit_hydrographs_Inr [OF assms(1)] by (simp add: normalize_def)
qed

section \<open>The divisions of the production store never divide by zero\<close>

text \<open>
  HOL's division by zero is 0 where numpy's is \<open>inf\<close> or \<open>nan\<close>. For every \<open>X1 \<noteq> 0\<close>
  the ratio \<open>S / X1\<close> of a state of the run lies in \<open>[0, 1]\<close>, so both denominators of
  \<open>net_fluxes\<close> are positive there and the two divisions agree.
\<close>

lemma outflow_factor:
  "outflow c s = s - s * (1 + ((s / c) / 2.25) ^ 4) powr (- 0.25)"
  by (simp add: outflow_def algebra_simps)

lemma powr_quarter_bounds:
  assumes "1 \<le> (b::real)"
  shows "0 < b powr (- 0.25) \<and> b powr (- 0.25) \<le> 1"
proof -
  have "b powr (- 0.25) \<le> b powr 0"
    by (rule powr_mono) (use assms in simp_all)
  moreover have "b powr 0 = 1" using assms by simp
  moreover have "0 < b powr (- 0.25)" using assms by simp
  ultimately show ?thesis by simp
qed

lemma step_capacity_ratio:
  assumes "step self UH1 UH2 precip evap st t = Inr st'"
  shows "0 \<le> S st' / X1 self \<and> S st' / X1 self \<le> 1"
proof -
  have x1: "X1 self \<noteq> 0" using assms by (auto simp: step_def split: if_splits)
  obtain Ps Es where pe: "net_fluxes (X1 self) (S st) (precip ! t) (evap ! t) = (Ps, Es)"
    by (cases "net_fluxes (X1 self) (S st) (precip ! t) (evap ! t)")
  define S1 where "S1 = np_clip (S st - Es + Ps) 0 (X1 self)"
  define f where "f = (1 + ((S1 / X1 self) / 2.25) ^ 4) powr (- 0.25)"
  have s': "S st' = S1 - outflow (X1 self) S1"
    using assms pe unfolding S1_def
    by (auto simp: step_def Let_def split: if_splits sum.splits)
  have f: "0 < f" "f \<le> 1"
    using powr_quarter_bounds [of "1 + ((S1 / X1 self) / 2.25) ^ 4"] by (simp_all add: f_def)
  have r1: "0 \<le> S1 / X1 self \<and> S1 / X1 self \<le> 1"
  proof (cases "0 < X1 self")
    case True
    then have "0 \<le> S1" "S1 \<le> X1 self" by (simp_all add: S1_def np_clip_def)
    with True show ?thesis by simp
  next
    case False
    with x1 have "X1 self < 0" by simp
    then have "S1 = X1 self" by (simp add: S1_def np_clip_def)
    with x1 show ?thesis by simp
  qed
  have "S st' = S1 * f"
    by (simp add: s' outflow_factor f_def)
  then have e: "S st' / X1 self = (S1 / X1 self) * f" by simp
  moreover have "0 \<le> (S1 / X1 self) * f"
    using r1 f by (intro mult_nonneg_nonneg) simp_all
  moreover have "(S1 / X1 self) * f \<le> 1 * 1"
    using r1 f by (intro mult_mono) simp_all
  ultimately show ?thesis by (simp only: mult_1)
qed

lemma denominators_positive:
  assumes "0 \<le> r" "r \<le> (1::real)"
  shows "0 < 1 + r * tanh (y::real) \<and> 0 < 1 + (1 - r) * tanh y"
proof -
  have t: "- 1 < tanh y" "tanh y < 1" using tanh_real_bounds [of y] by simp_all
  have a: "- 1 < q * tanh y" if "0 \<le> q" "q \<le> 1" for q :: real
  proof -
    have "\<bar>q * tanh y\<bar> = q * \<bar>tanh y\<bar>" using that by (simp add: abs_mult)
    also have "\<dots> \<le> 1 * \<bar>tanh y\<bar>" using that by (intro mult_right_mono) simp_all
    also have "\<dots> < 1" using t by simp
    finally show ?thesis by simp
  qed
  from a [of r] a [of "1 - r"] assms show ?thesis by simp
qed

lemma state_after_capacity_ratio:
  assumes "X1 self \<noteq> 0" "state_after self precip evap k = Inr st"
  shows "0 \<le> S st / X1 self \<and> S st / X1 self \<le> 1"
proof (cases k)
  case 0
  with assms state_after_0_store [of self precip evap st]
  have "S st = X1 self / 2" by simp
  then have "S st / X1 self = 1 / 2" using assms(1) by simp
  then show ?thesis by simp
next
  case (Suc j)
  with assms(2) obtain st0 UH1 UH2 where "step self UH1 UH2 precip evap st0 j = Inr st"
    by (auto simp: state_after_Suc split: sum.splits)
  from step_capacity_ratio [OF this] show ?thesis .
qed

section \<open>Sums of squares\<close>

lemma sum_list_squares_nonneg: "0 \<le> sum_list (map (\<lambda>x. (f x :: real)\<^sup>2) xs)"
  by (rule sum_list_nonneg) auto

lemma sum_list_squares_eq_0_iff:
  "sum_list (map (\<lambda>x. (f x)\<^sup>2) xs) = 0 \<longleftrightarrow> (\<forall>x\<in>set xs. f x = (0::real))"
proof (induction xs)
  case Nil then show ?case by simp
next
  case (Cons a xs)
  have "0 \<le> sum_list (map (\<lambda>x. (f x)\<^sup>2) xs)"
    by (rule sum_list_squares_nonneg)
  then show ?case using Cons by (simp add: add_nonneg_eq_0_iff)
qed

lemma map2_diff_squares_eq_0_iff:
  "length xs = length ys \<Longrightarrow>
   sum_list (map (\<lambda>x. x\<^sup>2) (map2 (-) xs ys)) = 0 \<longleftrightarrow> xs = (ys :: real list)"
proof (induction xs ys rule: list_induct2)
  case Nil then show ?case by simp
next
  case (Cons x xs y ys)
  have "0 \<le> sum_list (map (\<lambda>x. x\<^sup>2) (map2 (-) xs ys))"
    by (rule sum_list_squares_nonneg)
  then show ?case using Cons by (auto simp: add_nonneg_eq_0_iff)
qed

section \<open>The claims\<close>

text \<open>
  Claim C1 (mass conservation of both kernels for every \<open>X4 > 0\<close>) fails on the code.
  With the constructor's default \<open>X4 = 1.7\<close> the ordinates of \<open>UH1\<close> sum to
  \<open>(2 / 1.7) powr 2.5\<close>, which exceeds 1.38: the first loop never caps the cumulative
  curve at 1 (its guard \<^verbatim>\<open>t < self.X4\<close> holds at every index), whereas the second loop
  does. Lemma \<open>UH1_sum_closed_form\<close> gives the sum for every \<open>X4 > 0\<close>, and lemma
  \<open>UH2_sum_closed_form\<close> shows that \<open>UH2\<close> does sum to 1 for \<open>X4 > 1/2\<close>.
\<close>

theorem UH1_mass_at_default:
  "case compute_unit_hydrographs GR4J_default of
     Inr (UH1, UH2) \<Rightarrow> sum_list UH1 > 138 / 100
   | Inl e \<Rightarrow> False"
proof -
  have "(20 / 17 :: real) powr 2 \<le> (20 / 17) powr 2.5"
    by (rule powr_mono) simp_all
  then have b: "(138 / 100 :: real) < (20 / 17) powr 2.5"
    by (simp add: power2_eq_square)
  have "\<exists>U. compute_unit_hydrographs GR4J_default
      = Inr ([(10 / 17) powr 2.5, (20 / 17) powr 2.5 - (10 / 17) powr 2.5], U)"
    by (simp add: compute_unit_hydrographs_def GR4J_default_def GR4J_init_def np_zeros_def
        UH1_body_def normalize_def Let_def eval_nat_numeral upt_rec)
  then obtain U where "compute_unit_hydrographs GR4J_default
      = Inr ([(10 / 17) powr 2.5, (20 / 17) powr 2.5 - (10 / 17) powr 2.5], U)" ..
  then show ?thesis using b by simp
qed

text \<open>
  Claim C2: for \<open>X1 > 0\<close>, \<open>X3 > 0\<close>, \<open>X4 > 0\<close> and forcing sequences of equal length,
  the run raises nothing, at the end of every day \<open>k\<close> (and before the first) the production
  store lies in \<open>[0, X1]\<close> and the routing store is non-negative, and every value of the
  returned discharge sequence is non-negative.
\<close>

theorem stores_bounded_and_discharge_nonneg:
  assumes "0 < X1 self" "0 < X3 self" "0 < X4 self" "length precip = length evap"
  shows "(\<forall>k\<le>length precip. \<exists>st. state_after self precip evap k = Inr st
            \<and> 0 \<le> S st \<and> S st \<le> X1 self \<and> 0 \<le> R st)
     \<and> (\<exists>q. fst (run self precip evap) = Inr q \<and> length q = length precip
            \<and> (\<forall>x\<in>set q. 0 \<le> x))"
proof -
  from assms(3) have "- 1 / 2 < X4 self" by simp
  from compute_unit_hydrographs_Inr [OF this]
  obtain UH1 UH2 where uh: "compute_unit_hydrographs self = Inr (UH1, UH2)" by blast
  from kernels_nonempty [OF assms(3) uh] have ne: "UH1 \<noteq> []" "UH2 \<noteq> []" by simp_all
  have inv: "\<exists>st. state_after self precip evap k = Inr st
      \<and> 0 \<le> S st \<and> S st \<le> X1 self \<and> 0 \<le> R st \<and> length (Q st) = length precip
      \<and> (\<forall>x\<in>set (Q st). 0 \<le> x)" if "k \<le> length precip" for k
  proof -
    from that assms(4) have "k \<le> length evap" by simp
    from simulate_invariant [OF assms(1,2) ne this, of precip "length precip"]
    show ?thesis using uh by (simp add: state_after_def)
  qed
  from inv have "\<forall>k\<le>length precip. \<exists>st. state_after self precip evap k = Inr st
            \<and> 0 \<le> S st \<and> S st \<le> X1 self \<and> 0 \<le> R st"
    by blast
  moreover from inv [of "length precip"]
  have "\<exists>q. fst (run self precip evap) = Inr q \<and> length q = length precip
            \<and> (\<forall>x\<in>set q. 0 \<le> x)"
    by (auto simp: run_state_after)
  ultimately show ?thesis by blast
qed

theorem stores_bounded_and_discharge_nonneg_witness:
  "0 < X1 GR4J_default \<and> 0 < X3 GR4J_default \<and> 0 < X4 GR4J_default
   \<and> length [10, 0, 0, 0, 0 :: real] = length [0, 0, 0, 0, 0 :: real]
   \<and> (\<exists>st. state_after GR4J_default [10, 0, 0, 0, 0] [0, 0, 0, 0, 0] 3 = Inr st
            \<and> 0 \<le> S st \<and> S st \<le> 350 \<and> 0 \<le> R st)
   \<and> (\<exists>q. fst (run GR4J_default [10, 0, 0, 0, 0] [0, 0, 0, 0, 0]) = Inr q
            \<and> length q = length [10, 0, 0, 0, 0 :: real] \<and> (\<forall>x\<in>set q. 0 \<le> x))"
proof -
  let ?p = "[10, 0, 0, 0, 0 :: real]" and ?e = "[0, 0, 0, 0, 0 :: real]"
  have h: "0 < X1 GR4J_default" "0 < X3 GR4J_default" "0 < X4 GR4J_default"
    "length ?p = length ?e"
    by simp_all
  note c = stores_bounded_and_discharge_nonneg [OF h]
  from c have a: "\<forall>k\<le>length ?p. \<exists>st. state_after GR4J_default ?p ?e k = Inr st
            \<and> 0 \<le> S st \<and> S st \<le> X1 GR4J_default \<and> 0 \<le> R st" ..
  from c have b: "\<exists>q. fst (run GR4J_default ?p ?e) = Inr q \<and> length q = length ?p
            \<and> (\<forall>x\<in>set q. 0 \<le> x)" ..
  have "(3::nat) \<le> length ?p" by simp
  with a have "\<exists>st. state_after GR4J_default ?p ?e 3 = Inr st
            \<and> 0 \<le> S st \<and> S st \<le> X1 GR4J_default \<and> 0 \<le> R st"
    by blast
  then have "\<exists>st. state_after GR4J_default ?p ?e 3 = Inr st
            \<and> 0 \<le> S st \<and> S st \<le> 350 \<and> 0 \<le> R st"
    by simp
  with h b show ?thesis by blast
qed

text \<open>
  Claim C3: on every simulated day \<open>k\<close> the routing input is
  \<open>Pr = perc + (precip[k] - Ps)\<close>, with the raw precipitation of the day; the newest entries
  of the two delay lines are \<open>0.9 * Pr\<close> and \<open>0.1 * Pr\<close>. On the evaporation-dominant
  branch \<open>Ps = 0\<close> and \<open>Pr = perc + precip[k]\<close>.
\<close>

theorem routing_input_uses_raw_precipitation:
  assumes "k < length precip"
    and "state_after self precip evap k = Inr st"
    and "state_after self precip evap (Suc k) = Inr st'"
  shows "let (Ps, Es) = net_fluxes (X1 self) (S st) (precip ! k) (evap ! k);
             perc = outflow (X1 self) (np_clip (S st - Es + Ps) 0 (X1 self));
             Pr = perc + (precip ! k - Ps)
         in UH1_stores st' ! 0 = 0.9 * Pr \<and> UH2_stores st' ! 0 = 0.1 * Pr
            \<and> (precip ! k < evap ! k \<longrightarrow> Ps = 0 \<and> Pr = perc + precip ! k)"
proof -
  from assms(2,3) obtain UH1 UH2 where
    "step self UH1 UH2 precip evap st k = Inr st'"
    by (simp add: state_after_Suc)
  obtain Ps Es where pe: "net_fluxes (X1 self) (S st) (precip ! k) (evap ! k) = (Ps, Es)"
    by (cases "net_fluxes (X1 self) (S st) (precip ! k) (evap ! k)")
  have "precip ! k < evap ! k \<longrightarrow> Ps = 0"
    using net_fluxes_evaporation_branch [of "precip ! k" "evap ! k" "X1 self" "S st"] pe by simp
  with step_routing_input [OF \<open>step self UH1 UH2 precip evap st k = Inr st'\<close> pe]
  show ?thesis
    by (simp add: pe Let_def)
qed

theorem routing_input_uses_raw_precipitation_witness:
  "0 < length [2, 0 :: real]
   \<and> state_after GR4J_default [2, 0] [5, 0] 0 = Inr (projr (state_after GR4J_default [2, 0] [5, 0] 0))
   \<and> state_after GR4J_default [2, 0] [5, 0] (Suc 0)
       = Inr (projr (state_after GR4J_default [2, 0] [5, 0] (Suc 0)))
   \<and> UH1_stores (projr (state_after GR4J_default [2, 0] [5, 0] (Suc 0))) ! 0
       = 0.9 * (outflow 350 (np_clip (175 - snd (net_fluxes 350 175 2 5)) 0 350) + 2)
   \<and> UH2_stores (projr (state_after GR4J_default [2, 0] [5, 0] (Suc 0))) ! 0
       = 0.1 * (outflow 350 (np_clip (175 - snd (net_fluxes 350 175 2 5)) 0 350) + 2)"
proof -
  let ?p = "[2, 0 :: real]" and ?e = "[5, 0 :: real]"
  obtain st0 where st0: "state_after GR4J_default ?p ?e 0 = Inr st0"
    using state_after_Inr [of GR4J_default 0 ?e ?p] by auto
  obtain st1 where st1: "state_after GR4J_default ?p ?e (Suc 0) = Inr st1"
    using state_after_Inr [of GR4J_default "Suc 0" ?e ?p] by auto
  have s: "S st0 = 175" using state_after_0_store [OF st0] by simp
  have f: "fst (net_fluxes 350 175 2 5) = 0"
    by (rule net_fluxes_evaporation_branch) simp
  have "0 < length ?p" by simp
  from routing_input_uses_raw_precipitation [OF this st0 st1]
  show ?thesis
    using f by (simp add: st0 st1 s Let_def split: prod.splits)
qed

text \<open>
  Claim C4 (lengths \<open>ceil(X4)\<close> and \<open>ceil(2 X4)\<close>, all ordinates non-negative) fails on
  the code in its last part. With \<open>X4 = 1.1\<close> the kernel \<open>UH2\<close> has three ordinates and the
  third is \<open>1 - 0.5 * (2 / 1.1) powr 2.5 < 0\<close>: at index 1 the guard \<^verbatim>\<open>t < self.X4\<close> still
  selects the rising limb, evaluated at \<open>t + 1 = 2 > X4\<close>, so the cumulative curve exceeds 1
  before it is set to 1. The lengths are those of lemma \<open>compute_unit_hydrographs_length\<close>,
  and the ordinates of \<open>UH1\<close> are non-negative by lemma \<open>UH1_nonneg\<close>.
\<close>

theorem UH2_negative_ordinate:
  "case compute_unit_hydrographs (GR4J_init 350 0 90 (11 / 10)) of
     Inr (UH1, UH2) \<Rightarrow> length UH2 = 3 \<and> UH2 ! 2 < 0
   | Inl e \<Rightarrow> False"
proof -
  have "(20 / 11 :: real) powr 2 \<le> (20 / 11) powr 2.5"
    by (rule powr_mono) simp_all
  then have b: "(2 :: real) < (20 / 11) powr 2.5"
    by (simp add: power2_eq_square)
  have "case compute_unit_hydrographs (GR4J_init 350 0 90 (11 / 10)) of
     Inr (UH1, UH2) \<Rightarrow> length UH2 = 3 \<and> UH2 ! 2 = 1 - (20 / 11) powr 2.5 / 2
   | Inl e \<Rightarrow> False"
    by (simp add: compute_unit_hydrographs_def GR4J_init_def np_zeros_def
        UH1_body_def UH2_body_def normalize_def Let_def eval_nat_numeral upt_rec)
  then show ?thesis using b by (auto split: sum.splits)
qed

text \<open>
  Claim C5 (a run on sequences of different lengths fails with a shape error) fails on the
  code as stated: with a longer evapotranspiration sequence the run raises nothing.
\<close>

theorem longer_evap_raises_nothing:
  "\<not> isl (fst (run GR4J_default [10, 0] [0, 0, 7]))"
proof -
  have "\<exists>q. fst (run GR4J_default [10, 0] [0, 0, 7]) = Inr q \<and> length q = length [10, 0 :: real]"
    by (rule run_Inr) simp_all
  then show ?thesis by auto
qed

text \<open>
  Claim C5, amended: when the evapotranspiration sequence is shorter than the precipitation
  sequence the run fails and returns no output; with \<open>X1 \<noteq> 0\<close>, \<open>X3 \<noteq> 0\<close> and
  \<open>X4 > 0\<close> the exception is the \<^verbatim>\<open>IndexError\<close> of \<^verbatim>\<open>evap[t]\<close>.
\<close>

theorem shorter_evap_fails:
  assumes "length evap < length precip"
  shows "isl (fst (run self precip evap))
     \<and> (X1 self \<noteq> 0 \<and> X3 self \<noteq> 0 \<and> 0 < X4 self \<longrightarrow>
          fst (run self precip evap) = Inl IndexError)"
proof -
  let ?M = "length evap"
  have fails: "\<exists>e. state_after self precip evap (Suc ?M) = Inl e"
  proof (cases "state_after self precip evap ?M")
    case (Inl e)
    from state_after_error_mono [OF this, of "Suc ?M"] show ?thesis by simp
  next
    case (Inr st)
    then show ?thesis by (simp add: state_after_Suc step_IndexError)
  qed
  then obtain e where e: "state_after self precip evap (Suc ?M) = Inl e" ..
  have le: "Suc ?M \<le> length precip" using assms by simp
  from state_after_error_mono [OF e le]
  have "isl (fst (run self precip evap))" by (simp add: run_state_after)
  moreover have "fst (run self precip evap) = Inl IndexError"
    if "X1 self \<noteq> 0 \<and> X3 self \<noteq> 0 \<and> 0 < X4 self"
  proof -
    from that state_after_Inr [of self ?M evap precip]
    obtain st where "state_after self precip evap ?M = Inr st" by auto
    then have "state_after self precip evap (Suc ?M) = Inl IndexError"
      by (simp add: state_after_Suc step_IndexError)
    from state_after_error_mono [OF this le]
    show ?thesis by (simp add: run_state_after)
  qed
  ultimately show ?thesis by blast
qed

theorem shorter_evap_fails_witness:
  "length [0 :: real] < length [10, 0 :: real]
   \<and> isl (fst (run GR4J_default [10, 0] [0]))
   \<and> fst (run GR4J_default [10, 0] [0]) = Inl IndexError"
  using shorter_evap_fails [of "[0]" "[10, 0]" GR4J_default] by simp

text \<open>
  Claim C6 (non-positive \<open>X1\<close>, \<open>X3\<close> or \<open>X4\<close> is rejected before stepping) fails on the
  code as stated: the constructor checks nothing, a run with \<open>X1 = -350\<close> over two days
  raises nothing, and the unit hydrograph builder returns two empty kernels for \<open>X4 = 0\<close>.
\<close>

theorem negative_capacity_is_accepted:
  "\<not> isl (fst (run (GR4J_init (- 350) 0 90 (17 / 10)) [10, 0] [0, 0]))
   \<and> compute_unit_hydrographs (GR4J_init 350 0 90 0) = Inr ([], [])"
proof -
  have "\<exists>q. fst (run (GR4J_init (- 350) 0 90 (17 / 10)) [10, 0] [0, 0]) = Inr q
      \<and> length q = length [10, 0 :: real]"
    by (rule run_Inr) simp_all
  then have "\<not> isl (fst (run (GR4J_init (- 350) 0 90 (17 / 10)) [10, 0] [0, 0]))" by auto
  moreover have "compute_unit_hydrographs (GR4J_init 350 0 90 0) = Inr ([], [])"
    by (rule compute_unit_hydrographs_empty) simp_all
  ultimately show ?thesis by blast
qed

text \<open>
  Claim C6, amended: the parameters are not validated. Only \<open>X4 \<le> -1/2\<close> makes the run
  fail before any stepping, with the \<^verbatim>\<open>ValueError\<close> of the kernel allocation. For
  \<open>-1/2 < X4 \<le> 0\<close> the builder returns two empty kernels, and a run over at least one day
  (with \<open>X1 \<noteq> 0\<close>) fails in its first step, with \<^verbatim>\<open>IndexError\<close>. Non-positive \<open>X1\<close> or
  \<open>X3\<close> are not rejected: with \<open>X1 \<noteq> 0\<close>, \<open>X3 \<noteq> 0\<close> (negative values included) and
  \<open>X4 > 0\<close> the run returns one discharge value per day when \<open>evap\<close> is long enough.
\<close>

theorem unvalidated_parameters:
  "(X4 self \<le> - 1 / 2 \<longrightarrow>
      compute_unit_hydrographs self = Inl ValueError
      \<and> state_after self precip evap 0 = Inl ValueError
      \<and> fst (run self precip evap) = Inl ValueError)
   \<and> (- 1 / 2 < X4 self \<and> X4 self \<le> 0 \<longrightarrow> compute_unit_hydrographs self = Inr ([], []))
   \<and> (- 1 / 2 < X4 self \<and> X4 self \<le> 0 \<and> X1 self \<noteq> 0 \<and> precip \<noteq> [] \<longrightarrow>
        (\<exists>st0. state_after self precip evap 0 = Inr st0)
        \<and> state_after self precip evap (Suc 0) = Inl IndexError
        \<and> fst (run self precip evap) = Inl IndexError)
   \<and> (X1 self \<noteq> 0 \<and> X3 self \<noteq> 0 \<and> 0 < X4 self \<and> length precip \<le> length evap \<longrightarrow>
        (\<exists>q. fst (run self precip evap) = Inr q \<and> length q = length precip))"
proof -
  have a: "compute_unit_hydrographs self = Inl ValueError
      \<and> state_after self precip evap 0 = Inl ValueError
      \<and> fst (run self precip evap) = Inl ValueError" if "X4 self \<le> - 1 / 2"
    using compute_unit_hydrographs_ValueError [OF that]
    by (simp add: state_after_def run_def)
  have b: "compute_unit_hydrographs self = Inr ([], [])"
    if "- 1 / 2 < X4 self \<and> X4 self \<le> 0"
    using that compute_unit_hydrographs_empty [of self] by blast
  have c: "(\<exists>st0. state_after self precip evap 0 = Inr st0)
        \<and> state_after self precip evap (Suc 0) = Inl IndexError
        \<and> fst (run self precip evap) = Inl IndexError"
    if h: "- 1 / 2 < X4 self" "X4 self \<le> 0" "X1 self \<noteq> 0" "precip \<noteq> []"
  proof -
    have uh: "compute_unit_hydrographs self = Inr ([], [])"
      by (rule compute_unit_hydrographs_empty [OF h(1,2)])
    have e: "step self [] [] precip evap (initial_state self [] [] (length precip)) 0
        = Inl IndexError"
      by (rule first_step_IndexError [OF uh h(3,2)])
    have s0: "state_after self precip evap 0 = Inr (initial_state self [] [] (length precip))"
      using uh by (simp add: state_after_def)
    have s1: "state_after self precip evap (Suc 0) = Inl IndexError"
      using uh e by (simp add: state_after_def simulate_Suc)
    have "Suc 0 \<le> length precip" using h(4) by (cases precip) simp_all
    from state_after_error_mono [OF s1 this]
    have "fst (run self precip evap) = Inl IndexError" by (simp add: run_state_after)
    with s0 s1 show ?thesis by blast
  qed
  have d: "\<exists>q. fst (run self precip evap) = Inr q \<and> length q = length precip"
    if "X1 self \<noteq> 0 \<and> X3 self \<noteq> 0 \<and> 0 < X4 self \<and> length precip \<le> length evap"
    using that run_Inr [of self precip evap] by blast
  from a b c d show ?thesis by blast
qed

theorem unvalidated_parameters_witness:
  "X4 (GR4J_init 350 0 90 (- 1)) \<le> - 1 / 2
   \<and> compute_unit_hydrographs (GR4J_init 350 0 90 (- 1)) = Inl ValueError
   \<and> fst (run (GR4J_init 350 0 90 (- 1)) [10, 0] [0, 0]) = Inl ValueError
   \<and> - 1 / 2 < X4 (GR4J_init 350 0 90 0) \<and> X4 (GR4J_init 350 0 90 0) \<le> 0
   \<and> X1 (GR4J_init 350 0 90 0) \<noteq> 0 \<and> [10, 0 :: real] \<noteq> []
   \<and> compute_unit_hydrographs (GR4J_init 350 0 90 0) = Inr ([], [])
   \<and> state_after (GR4J_init 350 0 90 0) [10, 0] [0, 0] (Suc 0) = Inl IndexError
   \<and> fst (run (GR4J_init 350 0 90 0) [10, 0] [0, 0]) = Inl IndexError
   \<and> X1 (GR4J_init (- 350) 0 (- 90) (17 / 10)) \<noteq> 0
   \<and> X3 (GR4J_init (- 350) 0 (- 90) (17 / 10)) \<noteq> 0
   \<and> 0 < X4 (GR4J_init (- 350) 0 (- 90) (17 / 10))
   \<and> length [10, 0 :: real] \<le> length [0, 0 :: real]
   \<and> (\<exists>q. fst (run (GR4J_init (- 350) 0 (- 90) (17 / 10)) [10, 0] [0, 0]) = Inr q
         \<and> length q = length [10, 0 :: real])"
  using unvalidated_parameters [of "GR4J_init 350 0 90 (- 1)" "[10, 0]" "[0, 0]"]
    unvalidated_parameters [of "GR4J_init 350 0 90 0" "[10, 0]" "[0, 0]"]
    unvalidated_parameters [of "GR4J_init (- 350) 0 (- 90) (17 / 10)" "[10, 0]" "[0, 0]"]
  by simp

text \<open>
  Claim C7 (a zero-variance observed series makes \<^verbatim>\<open>calculate_nse\<close> fail) fails on the code
  as stated: the function raises nothing and returns \<open>-inf\<close> here.
\<close>

theorem nse_of_constant_observed_example:
  "calculate_nse [1, 1] [1, 2] = Inr NegInf"
  by (simp add: calculate_nse_def np_mean_def np_subtract_def np_divide_def Let_def)

text \<open>
  Claim C7, amended: for a non-empty observed series with zero variance and a simulated
  series of the same length, \<^verbatim>\<open>calculate_nse\<close> raises no error and returns a value; there is
  no failure on a zero denominator. (In exact arithmetic that value is \<open>nan\<close> or \<open>-inf\<close>, as in
  the example above; the theorem does not say which value is returned, because the rounding
  of the mean can leave a tiny non-zero denominator in \<^verbatim>\<open>float64\<close>.)
\<close>

theorem nse_of_constant_observed:
  assumes "observed \<noteq> []" "\<forall>x\<in>set observed. x = c" "length simulated = length observed"
  shows "\<exists>v. calculate_nse observed simulated = Inr v"
proof -
  have "np_subtract observed simulated = Inr (map2 (-) observed simulated)"
    using assms(3) by (simp add: np_subtract_def)
  then show ?thesis by (simp add: calculate_nse_def Let_def)
qed

theorem nse_of_constant_observed_witness:
  "[3, 3, 3 :: real] \<noteq> [] \<and> set [3, 3, 3 :: real] \<subseteq> {3}
   \<and> length [3, 4, 5 :: real] = length [3, 3, 3 :: real]
   \<and> (\<exists>v. calculate_nse [3, 3, 3] [3, 4, 5] = Inr v)"
  using nse_of_constant_observed [of "[3, 3, 3]" 3 "[3, 4, 5]"]
  by simp

text \<open>
  Claim C8: for every non-empty, non-constant sequence \<open>x\<close>, \<open>nse(x, x)\<close> is exactly 1.
\<close>

theorem nse_identity:
  assumes "x \<noteq> []" "\<exists>a\<in>set x. \<exists>b\<in>set x. a \<noteq> b"
  shows "calculate_nse x x = Inr (Finite 1)"
proof -
  define mu where "mu = sum_list x / real (length x)"
  have m: "np_mean x = Finite mu" using assms(1) by (simp add: np_mean_def mu_def)
  have sub: "np_subtract x x = Inr (map2 (-) x x)" by (simp add: np_subtract_def)
  have num: "sum_list (map (\<lambda>x. x\<^sup>2) (map2 (-) x x)) = 0"
    using map2_diff_squares_eq_0_iff [of x x] by simp
  have den: "sum_list (map (\<lambda>v. (v - mu)\<^sup>2) x) \<noteq> 0"
  proof
    assume "sum_list (map (\<lambda>v. (v - mu)\<^sup>2) x) = 0"
    then have "\<forall>v\<in>set x. v = mu" by (simp add: sum_list_squares_eq_0_iff)
    with assms(2) show False by metis
  qed
  have "calculate_nse x x
      = Inr (np_rsub 1 (np_divide (sum_list (map (\<lambda>x. x\<^sup>2) (map2 (-) x x)))
                                  (sum_list (map (\<lambda>v. (v - mu)\<^sup>2) x))))"
    by (simp add: calculate_nse_def m sub Let_def)
  also have "\<dots> = Inr (np_rsub 1 (np_divide 0 (sum_list (map (\<lambda>v. (v - mu)\<^sup>2) x))))"
    by (simp only: num)
  also have "\<dots> = Inr (Finite 1)"
    using den by (simp add: np_divide_def)
  finally show ?thesis .
qed

theorem nse_identity_witness:
  "[1, 2, 4 :: real] \<noteq> [] \<and> (\<exists>a\<in>set [1, 2, 4 :: real]. \<exists>b\<in>set [1, 2, 4 :: real]. a \<noteq> b)
   \<and> calculate_nse [1, 2, 4] [1, 2, 4] = Inr (Finite 1)"
proof -
  have h1: "[1, 2, 4 :: real] \<noteq> []" by simp
  have "(1::real) \<in> set [1, 2, 4]" "(2::real) \<in> set [1, 2, 4]" "(1::real) \<noteq> 2" by simp_all
  then have h2: "\<exists>a\<in>set [1, 2, 4 :: real]. \<exists>b\<in>set [1, 2, 4 :: real]. a \<noteq> b" by blast
  from nse_identity [OF h1 h2] h1 h2 show ?thesis by blast
qed

text \<open>
  Claim C9: \<^verbatim>\<open>run\<close> leaves the object unchanged; a call on the object left by an earlier
  call (with the same or with other inputs) returns what a call on the original object
  returns; and the result of every call is the discharge array of the loop started from the
  fresh state \<open>S = 0.5 * X1\<close>, \<open>R = 0.5 * X3\<close>, zeroed delay lines and zeroed output, with the
  kernels built from the object's \<open>X4\<close>.
\<close>

theorem run_deterministic_and_stateless:
  "snd (run self precip evap) = self
   \<and> fst (run (snd (run self precip evap)) precip evap) = fst (run self precip evap)
   \<and> fst (run (snd (run self precip' evap')) precip evap) = fst (run self precip evap)
   \<and> fst (run self precip evap) =
       (case compute_unit_hydrographs self of
          Inl e \<Rightarrow> Inl e
        | Inr (UH1, UH2) \<Rightarrow>
           map_sum id Q
             (simulate self UH1 UH2 precip evap
                \<lparr>S = 0.5 * X1 self, R = 0.5 * X3 self,
                 UH1_stores = replicate (length UH1) 0,
                 UH2_stores = replicate (length UH2) 0,
                 Q = replicate (length precip) 0\<rparr>
                (length precip)))"
proof -
  have "fst (run self precip evap) =
       (case compute_unit_hydrographs self of
          Inl e \<Rightarrow> Inl e
        | Inr (UH1, UH2) \<Rightarrow>
           map_sum id Q
             (simulate self UH1 UH2 precip evap
                \<lparr>S = 0.5 * X1 self, R = 0.5 * X3 self,
                 UH1_stores = replicate (length UH1) 0,
                 UH2_stores = replicate (length UH2) 0,
                 Q = replicate (length precip) 0\<rparr>
                (length precip)))"
    by (simp add: run_def initial_state_def Let_def split: sum.splits prod.splits)
  moreover have "snd (run self precip evap) = self" by (rule run_self)
  moreover have "snd (run self precip' evap') = self" by (rule run_self)
  ultimately show ?thesis by simp
qed

text \<open>
  Claim C10: when the evapotranspiration sequence is strictly longer than the precipitation
  sequence, the result of \<^verbatim>\<open>run\<close> depends only on its first \<open>N = len(precip)\<close> entries,
  and for \<open>X1 \<noteq> 0\<close>, \<open>X3 \<noteq> 0\<close>, \<open>X4 > 0\<close> the run raises nothing and returns exactly
  \<open>N\<close> values.
\<close>

theorem longer_evap_is_ignored:
  assumes "length precip < length evap"
    and "length precip \<le> length evap'"
    and "take (length precip) evap' = take (length precip) evap"
  shows "fst (run self precip evap') = fst (run self precip evap)
     \<and> (X1 self \<noteq> 0 \<and> X3 self \<noteq> 0 \<and> 0 < X4 self \<longrightarrow>
          (\<exists>q. fst (run self precip evap) = Inr q \<and> length q = length precip))"
proof -
  have le: "length precip \<le> length evap" using assms(1) by simp
  have "state_after self precip evap' (length precip) = state_after self precip evap (length precip)"
    using simulate_evap_cong [OF assms(2) le assms(3)]
    by (simp add: state_after_def split: sum.splits prod.splits)
  then have "fst (run self precip evap') = fst (run self precip evap)"
    by (simp add: run_state_after)
  moreover have "X1 self \<noteq> 0 \<and> X3 self \<noteq> 0 \<and> 0 < X4 self \<longrightarrow>
          (\<exists>q. fst (run self precip evap) = Inr q \<and> length q = length precip)"
    using run_Inr [OF _ _ _ le] by blast
  ultimately show ?thesis by blast
qed

theorem longer_evap_is_ignored_witness:
  "length [10, 0 :: real] < length [0, 0, 7 :: real]
   \<and> length [10, 0 :: real] \<le> length [0, 0 :: real]
   \<and> take (length [10, 0 :: real]) [0, 0 :: real] = take (length [10, 0 :: real]) [0, 0, 7]
   \<and> fst (run GR4J_default [10, 0] [0, 0]) = fst (run GR4J_default [10, 0] [0, 0, 7])
   \<and> (\<exists>q. fst (run GR4J_default [10, 0] [0, 0, 7]) = Inr q \<and> length q = length [10, 0 :: real])"
  using longer_evap_is_ignored [of "[10, 0]" "[0, 0, 7]" "[0, 0]" GR4J_default]
  by (simp add: GR4J_default_def GR4J_init_def)

end
